theory Spec2Isabelle
  imports Complex_Main "HOL-Library.AList"
begin

section \<open>JSON values as the handlers see them\<close>

text \<open>
  A request body and a file content are what \<^verbatim>\<open>JSON.parse\<close> returns. An object is
  the list of its own properties, in insertion order; the keys of a parsed object
  are distinct. Objects are read through \<open>map_of\<close>; the order of the list shows
  only in the examples, whose keys are not integer-like (JavaScript enumerates
  integer-like keys first). A number is the parsed value; the handlers only ask
  whether it is zero. A string is its list of characters.
\<close>

datatype json =
    JNull
  | JBool bool
  | JNum rat
  | JStr string
  | JArr "json list"
  | JObj "(string \<times> json) list"

type_synonym props = "(string \<times> json) list"

text \<open>JavaScript truthiness of a JSON value, as tested by \<^verbatim>\<open>if (x)\<close> and \<^verbatim>\<open>!x\<close>.\<close>

fun truthy :: "json \<Rightarrow> bool" where
  "truthy JNull = False"
| "truthy (JBool b) = b"
| "truthy (JNum n) = (n \<noteq> 0)"
| "truthy (JStr s) = (s \<noteq> [])"
| "truthy (JArr xs) = True"
| "truthy (JObj kvs) = True"

text \<open>The decimal name of an array or string index.\<close>

fun dec :: "nat \<Rightarrow> string" where
  "dec n = (if n < 10 then [''0123456789'' ! n]
            else dec (n div 10) @ [''0123456789'' ! (n mod 10)])"

declare dec.simps [simp del]

text \<open>
  The own enumerable properties that an object spread \<^verbatim>\<open>{...x}\<close> copies: the
  properties of an object, the indexed elements of an array, the indexed
  characters of a string, and nothing for \<^verbatim>\<open>null\<close>, a boolean or a number.
\<close>

fun own_props :: "json \<Rightarrow> props" where
  "own_props (JObj kvs) = kvs"
| "own_props (JArr xs) = zip (map dec [0..<length xs]) xs"
| "own_props (JStr s) = zip (map dec [0..<length s]) (map (\<lambda>c. JStr [c]) s)"
| "own_props JNull = []"
| "own_props (JBool b) = []"
| "own_props (JNum n) = []"

text \<open>
  \<^verbatim>\<open>{...a, ...b}\<close>: the properties of \<open>a\<close>, then every property of \<open>b\<close> assigned
  in order (an existing key keeps its place and takes the new value, a new key is
  appended).
\<close>

definition spread :: "props \<Rightarrow> props \<Rightarrow> props" where
  "spread target src = fold (\<lambda>(k, v). AList.update k v) src target"

section \<open>Reading a property of the plain object \<^verbatim>\<open>dataStore\<close>\<close>

text \<open>
  \<^verbatim>\<open>let dataStore: { [key: string]: any } = {}\<close> is an ordinary object, so
  \<^verbatim>\<open>dataStore[id]\<close> finds an own property first and otherwise what the object
  inherits from \<^verbatim>\<open>Object.prototype\<close>: a built-in function under each of the
  names below (the runtime of the Dockerfile, Deno, removes \<^verbatim>\<open>__proto__\<close>).
  Assignment and \<^verbatim>\<open>delete\<close> act on own properties only.
\<close>

definition object_prototype_keys :: "string list" where
  "object_prototype_keys =
     [''constructor'', ''hasOwnProperty'', ''isPrototypeOf'', ''propertyIsEnumerable'',
      ''toLocaleString'', ''toString'', ''valueOf'', ''__defineGetter__'',
      ''__defineSetter__'', ''__lookupGetter__'', ''__lookupSetter__'']"

datatype jsvalue = Undefined | Builtin | Data json

definition get_prop :: "props \<Rightarrow> string \<Rightarrow> jsvalue" where
  "get_prop obj k =
     (case map_of obj k of
        Some v \<Rightarrow> Data v
      | None \<Rightarrow> if k \<in> set object_prototype_keys then Builtin else Undefined)"

fun truthy_js :: "jsvalue \<Rightarrow> bool" where
  "truthy_js Undefined = False"
| "truthy_js Builtin = True"
| "truthy_js (Data v) = truthy v"

text \<open>A function has no enumerable own property, so spreading it copies nothing.\<close>

fun js_own_props :: "jsvalue \<Rightarrow> props" where
  "js_own_props (Data v) = own_props v"
| "js_own_props Builtin = []"
| "js_own_props Undefined = []"

text \<open>
  \<^verbatim>\<open>JSON.stringify\<close> of a function or of \<^verbatim>\<open>undefined\<close> is \<^verbatim>\<open>undefined\<close>: the
  response then has no body.
\<close>

fun stringify :: "jsvalue \<Rightarrow> json option" where
  "stringify (Data v) = Some v"
| "stringify Builtin = None"
| "stringify Undefined = None"

section \<open>The two stores, the configuration and the environment\<close>

text \<open>
  A directory entry of \<^verbatim>\<open>DATA_DIR\<close>: what reading it gives (text that parses to
  a value, text that \<^verbatim>\<open>JSON.parse\<close> rejects, or a read error other than
  NotFound) and its modification time in milliseconds (\<^verbatim>\<open>fileInfo.mtime\<close> may
  be null). A directory holds each name once. Writing and removing succeed
  on the data directory; request ids are single path segments.
\<close>

datatype file_content = JsonText json | Garbage | Unreadable

record dir_entry =
  content :: file_content
  mtime :: "int option"

record state =
  dataStore :: props
  files :: "(string \<times> dir_entry) list"

record config =
  AUTH_HEADER :: string
  retention_days :: "rat option"

text \<open>
  One reading of the system clock: \<^verbatim>\<open>Date.now()\<close> and
  \<^verbatim>\<open>new Date().toISOString()\<close>.
\<close>

record clock =
  epoch_ms :: int
  iso :: string

text \<open>The result of \<^verbatim>\<open>c.req.json()\<close>: a SyntaxError or the parsed value.\<close>

datatype reqbody = Malformed | Body json

datatype response = Response nat "json option"

datatype log_entry =
    ErrReadingFile string
  | ErrReadingData
  | StartingCleanup rat
  | DeletedOldFile string

record outcome =
  resp :: response
  after :: state
  logged :: "log_entry list"

definition error_body :: "string \<Rightarrow> json option" where
  "error_body msg = Some (JObj [(''error'', JStr msg)])"

definition not_found :: response where
  "not_found = Response 404 (error_body ''Not Found'')"

definition bad_request :: response where
  "bad_request = Response 400 (error_body ''Bad Request - Invalid JSON'')"

definition unauthorized :: response where
  "unauthorized = Response 401 (error_body ''unauthorized'')"

definition internal_error :: response where
  "internal_error = Response 500 (error_body ''Internal Server Error'')"

definition endsWith :: "string \<Rightarrow> string \<Rightarrow> bool" where
  "endsWith name sfx =
     (length sfx \<le> length name \<and> drop (length name - length sfx) name = sfx)"

text \<open>\<^verbatim>\<open>entry.name.slice(0, -5)\<close>\<close>

definition strip_ext :: "string \<Rightarrow> string" where
  "strip_ext name = take (length name - 5) name"

text \<open>The entry of \<^verbatim>\<open>`${DATA_DIR}/${id}.json`\<close> in the data directory.\<close>

definition file_name :: "string \<Rightarrow> string" where
  "file_name ident = ident @ ''.json''"

section \<open>File helpers\<close>

definition writeIndividualDataFile :: "clock \<Rightarrow> string \<Rightarrow> json \<Rightarrow> state \<Rightarrow> state" where
  "writeIndividualDataFile clk ident data s =
     s\<lparr>files :=
         AList.update (file_name ident)
           \<lparr>content = JsonText (JObj (AList.update ''createdAt'' (JStr (iso clk)) (own_props data))),
            mtime = Some (epoch_ms clk)\<rparr>
           (files s)\<rparr>"

text \<open>A missing file is ignored.\<close>

definition deleteIndividualDataFile :: "string \<Rightarrow> state \<Rightarrow> state" where
  "deleteIndividualDataFile ident s = s\<lparr>files := AList.delete (file_name ident) (files s)\<rparr>"

section \<open>The retention sweeper\<close>

text \<open>\<^verbatim>\<open>(configData.retention?.days || 7) * 24 * 60 * 60 * 1000\<close>\<close>

definition retentionDays :: "config \<Rightarrow> rat" where
  "retentionDays cfg =
     (case retention_days cfg of None \<Rightarrow> 7 | Some d \<Rightarrow> if d = 0 then 7 else d)"

definition retentionMs :: "config \<Rightarrow> rat" where
  "retentionMs cfg = retentionDays cfg * 24 * 60 * 60 * 1000"

text \<open>The loop over \<^verbatim>\<open>Deno.readDir(DATA_DIR)\<close> in \<^verbatim>\<open>cleanupOldFiles\<close>.\<close>

fun sweep_entries ::
  "rat \<Rightarrow> int \<Rightarrow> (string \<times> dir_entry) list \<Rightarrow> state \<Rightarrow> log_entry list \<Rightarrow> state \<times> log_entry list"
where
  "sweep_entries rms now [] s lg = (s, lg)"
| "sweep_entries rms now ((name, f) # es) s lg =
     (if endsWith name ''.json'' then
        (case mtime f of
           None \<Rightarrow> sweep_entries rms now es s lg
         | Some m \<Rightarrow>
             if of_int (now - m) > rms then
               (let s1 = s\<lparr>files := AList.delete name (files s)\<rparr>;
                    ident = strip_ext name;
                    s2 = (if truthy_js (get_prop (dataStore s1) ident)
                          then s1\<lparr>dataStore := AList.delete ident (dataStore s1)\<rparr>
                          else s1)
                in sweep_entries rms now es s2 (lg @ [DeletedOldFile name]))
             else sweep_entries rms now es s lg)
      else sweep_entries rms now es s lg)"

definition cleanupOldFiles :: "config \<Rightarrow> int \<Rightarrow> state \<Rightarrow> state \<times> log_entry list" where
  "cleanupOldFiles cfg now s =
     sweep_entries (retentionMs cfg) now (files s) s [StartingCleanup (retentionDays cfg)]"

subsection \<open>The timer\<close>

text \<open>
  A \<^verbatim>\<open>Date\<close> is its epoch milliseconds. \<open>tzo\<close> is what \<^verbatim>\<open>getTimezoneOffset()\<close>
  returns on the host, in minutes (UTC minus local time, taken as constant over
  the two days involved); the local fields of a date \<open>t\<close> read the wall clock
  \<open>t - tzo * 60000\<close>. \<^verbatim>\<open>setDate(getDate() + 1)\<close> followed by
  \<^verbatim>\<open>setHours(0, 0, 0, 0)\<close> moves to the start of the next local day.
\<close>

definition next_local_midnight :: "int \<Rightarrow> int \<Rightarrow> int" where
  "next_local_midnight tzo t =
     ((t - tzo * 60000) div 86400000 + 1) * 86400000 + tzo * 60000"

text \<open>The delay that \<^verbatim>\<open>scheduleCleanup\<close> passes to \<^verbatim>\<open>setTimeout\<close>.\<close>

definition scheduleCleanup :: "int \<Rightarrow> int \<Rightarrow> int" where
  "scheduleCleanup tzo now =
     (let utc = now + tzo * 60000;
          jakartaTime = utc + 3600000 * 7;
          nextRun = next_local_midnight tzo jakartaTime
      in nextRun - now)"

text \<open>
  The timer's callback: the sweep at time \<open>now\<close>, then \<^verbatim>\<open>scheduleCleanup()\<close>
  again at time \<open>now'\<close>; the result carries the new delay.
\<close>

definition timer_fired ::
  "config \<Rightarrow> int \<Rightarrow> int \<Rightarrow> int \<Rightarrow> state \<Rightarrow> (state \<times> log_entry list) \<times> int" where
  "timer_fired cfg tzo now now' s = (cleanupOldFiles cfg now s, scheduleCleanup tzo now')"

text \<open>
  Process start: the store is empty, the directory is what it was, and the only
  call is \<^verbatim>\<open>scheduleCleanup()\<close>; a delay that is not positive makes the timer
  fire at once.
\<close>

definition startup :: "int \<Rightarrow> int \<Rightarrow> (string \<times> dir_entry) list \<Rightarrow> state \<times> int" where
  "startup tzo now dir = (\<lparr>dataStore = [], files = dir\<rparr>, scheduleCleanup tzo now)"

text \<open>
  The delay the documentation asks for (``next day at 00:00 Asia/Jakarta time'',
  UTC+7), whatever the host's zone: the time left until the Jakarta wall clock
  next shows midnight.
\<close>

definition delay_to_jakarta_midnight :: "int \<Rightarrow> int" where
  "delay_to_jakarta_midnight now = 86400000 - (now + 25200000) mod 86400000"

section \<open>Request handlers\<close>

text \<open>\<^verbatim>\<open>!authHeader || authHeader !== AUTH_HEADER\<close> rejects.\<close>

definition authorized :: "config \<Rightarrow> string option \<Rightarrow> bool" where
  "authorized cfg hdr =
     (case hdr of None \<Rightarrow> False | Some h \<Rightarrow> h \<noteq> [] \<and> h = AUTH_HEADER cfg)"

text \<open>The loop of \<^verbatim>\<open>GET /json\<close> over the directory.\<close>

fun read_dir_into ::
  "(string \<times> dir_entry) list \<Rightarrow> props \<Rightarrow> log_entry list \<Rightarrow> props \<times> log_entry list"
where
  "read_dir_into [] result lg = (result, lg)"
| "read_dir_into ((name, f) # es) result lg =
     (if endsWith name ''.json'' then
        (if truthy_js (get_prop result (strip_ext name)) then read_dir_into es result lg
         else
           (case content f of
              JsonText v \<Rightarrow> read_dir_into es (AList.update (strip_ext name) v result) lg
            | Garbage \<Rightarrow> read_dir_into es result (lg @ [ErrReadingFile name])
            | Unreadable \<Rightarrow> read_dir_into es result (lg @ [ErrReadingFile name])))
      else read_dir_into es result lg)"

definition get_json :: "state \<Rightarrow> outcome" where
  "get_json s =
     (case read_dir_into (files s) (dataStore s) [] of
        (result, lg) \<Rightarrow> \<lparr>resp = Response 200 (Some (JObj result)), after = s, logged = lg\<rparr>)"

definition get_json_id :: "string \<Rightarrow> state \<Rightarrow> outcome" where
  "get_json_id ident s =
     (if truthy_js (get_prop (dataStore s) ident) then
        \<lparr>resp = Response 200 (stringify (get_prop (dataStore s) ident)), after = s, logged = []\<rparr>
      else
        (case map_of (files s) (file_name ident) of
           None \<Rightarrow> \<lparr>resp = not_found, after = s, logged = []\<rparr>
         | Some f \<Rightarrow>
             (case content f of
                JsonText v \<Rightarrow> \<lparr>resp = Response 200 (Some v), after = s, logged = []\<rparr>
              | Garbage \<Rightarrow> \<lparr>resp = internal_error, after = s, logged = [ErrReadingData]\<rparr>
              | Unreadable \<Rightarrow> \<lparr>resp = internal_error, after = s, logged = [ErrReadingData]\<rparr>)))"

text \<open>\<open>uuid\<close> is what \<^verbatim>\<open>crypto.randomUUID()\<close> returns, \<open>origin\<close> is
  \<^verbatim>\<open>`${url.protocol}//${url.host}`\<close>.\<close>

definition post_json ::
  "config \<Rightarrow> string option \<Rightarrow> reqbody \<Rightarrow> clock \<Rightarrow> string \<Rightarrow> string \<Rightarrow> state \<Rightarrow> outcome" where
  "post_json cfg hdr rb clk uuid origin s =
     (if authorized cfg hdr then
        (case rb of
           Malformed \<Rightarrow> \<lparr>resp = bad_request, after = s, logged = []\<rparr>
         | Body body \<Rightarrow>
             \<lparr>resp = Response 201
                 (Some (JObj [(''id'', JStr uuid),
                              (''url'', JStr (origin @ ''/json/'' @ uuid)),
                              (''data'', body)])),
              after = writeIndividualDataFile clk uuid body
                        (s\<lparr>dataStore := AList.update uuid body (dataStore s)\<rparr>),
              logged = []\<rparr>)
      else \<lparr>resp = unauthorized, after = s, logged = []\<rparr>)"

definition put_json_id ::
  "config \<Rightarrow> string option \<Rightarrow> string \<Rightarrow> reqbody \<Rightarrow> clock \<Rightarrow> state \<Rightarrow> outcome" where
  "put_json_id cfg hdr ident rb clk s =
     (if authorized cfg hdr then
        (case rb of
           Malformed \<Rightarrow> \<lparr>resp = bad_request, after = s, logged = []\<rparr>
         | Body body \<Rightarrow>
             if truthy_js (get_prop (dataStore s) ident) then
               \<lparr>resp = Response 200 (Some body),
                after = writeIndividualDataFile clk ident body
                          (s\<lparr>dataStore := AList.update ident body (dataStore s)\<rparr>),
                logged = []\<rparr>
             else \<lparr>resp = not_found, after = s, logged = []\<rparr>)
      else \<lparr>resp = unauthorized, after = s, logged = []\<rparr>)"

definition patch_json_id ::
  "config \<Rightarrow> string option \<Rightarrow> string \<Rightarrow> reqbody \<Rightarrow> clock \<Rightarrow> state \<Rightarrow> outcome" where
  "patch_json_id cfg hdr ident rb clk s =
     (if authorized cfg hdr then
        (case rb of
           Malformed \<Rightarrow> \<lparr>resp = bad_request, after = s, logged = []\<rparr>
         | Body updates \<Rightarrow>
             if truthy_js (get_prop (dataStore s) ident) then
               (let merged = JObj (spread (js_own_props (get_prop (dataStore s) ident))
                                          (own_props updates))
                in \<lparr>resp = Response 200 (Some merged),
                    after = writeIndividualDataFile clk ident merged
                              (s\<lparr>dataStore := AList.update ident merged (dataStore s)\<rparr>),
                    logged = []\<rparr>)
             else \<lparr>resp = not_found, after = s, logged = []\<rparr>)
      else \<lparr>resp = unauthorized, after = s, logged = []\<rparr>)"

definition delete_json_id :: "config \<Rightarrow> string option \<Rightarrow> string \<Rightarrow> state \<Rightarrow> outcome" where
  "delete_json_id cfg hdr ident s =
     (if authorized cfg hdr then
        (if truthy_js (get_prop (dataStore s) ident) then
           \<lparr>resp = Response 200 (Some (JObj [(''message'', JStr ''Json deleted successfully'')])),
            after = deleteIndividualDataFile ident
                      (s\<lparr>dataStore := AList.delete ident (dataStore s)\<rparr>),
            logged = []\<rparr>
         else \<lparr>resp = not_found, after = s, logged = []\<rparr>)
      else \<lparr>resp = unauthorized, after = s, logged = []\<rparr>)"

section \<open>Example inputs\<close>

text \<open>The configuration of the README, a server that has just started on an
  empty data directory, an identifier as \<^verbatim>\<open>crypto.randomUUID()\<close> returns them, and
  three readings of the clock.\<close>

definition example_config :: config where
  "example_config = \<lparr>AUTH_HEADER = ''r4HaS1AbangHaSAN'', retention_days = Some 7\<rparr>"

definition example_auth :: "string option" where
  "example_auth = Some ''r4HaS1AbangHaSAN''"

definition empty_server :: state where
  "empty_server = \<lparr>dataStore = [], files = []\<rparr>"

definition example_uuid :: string where
  "example_uuid = ''3b241101-e2bb-4255-8caf-4136c566a962''"

definition example_origin :: string where
  "example_origin = ''http://localhost:8000''"

definition clock_jan1 :: clock where
  "clock_jan1 = \<lparr>epoch_ms = 1704067200000, iso = ''2024-01-01T00:00:00.000Z''\<rparr>"

definition clock_jan2 :: clock where
  "clock_jan2 = \<lparr>epoch_ms = 1704153600000, iso = ''2024-01-02T00:00:00.000Z''\<rparr>"

definition clock_jan3 :: clock where
  "clock_jan3 = \<lparr>epoch_ms = 1704240000000, iso = ''2024-01-03T00:00:00.000Z''\<rparr>"

text \<open>The server after \<^verbatim>\<open>POST /json\<close> with the body \<^verbatim>\<open>{"title":"t"}\<close>.\<close>

definition created_server :: state where
  "created_server =
     after (post_json example_config example_auth (Body (JObj [(''title'', JStr ''t'')]))
              clock_jan1 example_uuid example_origin empty_server)"

text \<open>The server after \<^verbatim>\<open>POST /json\<close> with the body \<^verbatim>\<open>0\<close>, a valid JSON text.\<close>

definition zero_server :: state where
  "zero_server =
     after (post_json example_config example_auth (Body (JNum 0))
              clock_jan1 example_uuid example_origin empty_server)"

text \<open>A restarted server whose directory holds \<^verbatim>\<open>constructor.json\<close>.\<close>

definition disk_only_constructor :: state where
  "disk_only_constructor =
     \<lparr>dataStore = [],
      files = [(''constructor.json'',
                \<lparr>content = JsonText (JObj [(''a'', JNum 1)]), mtime = Some 1704067200000\<rparr>)]\<rparr>"

definition titled_server :: state where
  "titled_server =
     \<lparr>dataStore = [(example_uuid, JObj [(''title'', JStr ''t''), (''content'', JStr ''c'')])],
      files = []\<rparr>"

text \<open>An item stored as \<^verbatim>\<open>null\<close> in memory, with another version on disk.\<close>

definition null_server :: state where
  "null_server =
     \<lparr>dataStore = [(''a'', JNull)],
      files = [(''a.json'', \<lparr>content = JsonText (JObj [(''x'', JNum 1)]), mtime = Some 0\<rparr>)]\<rparr>"

text \<open>A directory with one damaged and one sound file, and one item in memory.\<close>

definition damaged_server :: state where
  "damaged_server =
     \<lparr>dataStore = [(''m'', JObj [(''k'', JNum 2)])],
      files = [(''a.json'', \<lparr>content = Garbage, mtime = Some 0\<rparr>),
               (''b.json'', \<lparr>content = JsonText (JObj [(''x'', JNum 1)]), mtime = Some 0\<rparr>)]\<rparr>"

section \<open>Vocabulary for the sweep\<close>

text \<open>The test of \<^verbatim>\<open>cleanupOldFiles\<close> on one directory entry: an item file whose
  age \<^verbatim>\<open>now - mtime\<close> is greater than the threshold.\<close>

definition over_age :: "rat \<Rightarrow> int \<Rightarrow> string \<times> dir_entry \<Rightarrow> bool" where
  "over_age rms now e =
     (endsWith (fst e) ''.json'' \<and>
      (case mtime (snd e) of None \<Rightarrow> False | Some m \<Rightarrow> of_int (now - m) > rms))"

section \<open>File names and identifiers\<close>

lemma endsWith_file_name:
  assumes "endsWith name ''.json''"
  shows "file_name (strip_ext name) = name"
proof -
  from assms have "drop (length name - 5) name = ''.json''"
    by (simp add: endsWith_def eval_nat_numeral)
  then have "take (length name - 5) name @ ''.json'' = name"
    by (metis append_take_drop_id)
  then show ?thesis
    by (simp add: file_name_def strip_ext_def)
qed

lemma endsWith_of_file_name: "endsWith (file_name ident) ''.json''"
  by (simp add: endsWith_def file_name_def)

lemma strip_ext_file_name: "strip_ext (file_name ident) = ident"
  by (simp add: strip_ext_def file_name_def)

lemma example_authorized: "authorized example_config example_auth"
  by (simp add: authorized_def example_config_def example_auth_def)

section \<open>Object spread\<close>

lemma map_of_rev_distinct: "distinct (map fst xs) \<Longrightarrow> map_of (rev xs) = map_of xs"
  by (subst map_of_inject_set) (simp_all add: rev_map [symmetric])

lemma map_of_spread: "map_of (spread t src) = map_of t ++ map_of (rev src)"
  unfolding spread_def
  by (induction src arbitrary: t) (auto simp: update_conv' map_add_upd_left)

lemma spread_lookup:
  assumes "distinct (map fst src)"
  shows "map_of (spread t src) k = (case map_of src k of Some v \<Rightarrow> Some v | None \<Rightarrow> map_of t k)"
  using assms by (simp add: map_of_spread map_of_rev_distinct map_add_def)

lemma get_prop_update_other:
  "k \<noteq> k' \<Longrightarrow> get_prop (AList.update k' v obj) k = get_prop obj k"
  by (simp add: get_prop_def update_conv')

section \<open>The directory loop of \<^verbatim>\<open>GET /json\<close>\<close>

text \<open>Entries under other names leave the result's property \<open>ident\<close> alone.\<close>

lemma read_dir_other:
  "file_name ident \<notin> fst ` set es \<Longrightarrow>
     map_of (fst (read_dir_into es r lg)) ident = map_of r ident"
proof (induction es arbitrary: r lg)
  case Nil
  then show ?case by simp
next
  case (Cons e es)
  obtain name f where e: "e = (name, f)" by (cases e)
  from Cons.prems e have ne: "name \<noteq> file_name ident" and rest: "file_name ident \<notin> fst ` set es"
    by auto
  have other: "endsWith name ''.json'' \<Longrightarrow> strip_ext name \<noteq> ident"
    using ne endsWith_file_name [of name] by auto
  show ?case
    using Cons.IH [OF rest] other
    by (cases "content f") (auto simp: e update_conv')
qed

text \<open>A readable file whose identifier is not truthy in the result is taken from disk.\<close>

lemma read_dir_takes_file:
  assumes "distinct (map fst es)" and "map_of es (file_name ident) = Some f"
    and "content f = JsonText d" and "\<not> truthy_js (get_prop r ident)"
  shows "map_of (fst (read_dir_into es r lg)) ident = Some d"
  using assms
proof (induction es arbitrary: r lg)
  case Nil
  then show ?case by simp
next
  case (Cons e es)
  obtain name g where e: "e = (name, g)" by (cases e)
  show ?case
  proof (cases "name = file_name ident")
    case True
    with Cons.prems e have g: "g = f" and rest: "file_name ident \<notin> fst ` set es"
      by auto
    show ?thesis
      using Cons.prems(3,4) read_dir_other [OF rest]
      by (simp add: e True g endsWith_of_file_name strip_ext_file_name update_conv')
  next
    case False
    have other: "endsWith name ''.json'' \<Longrightarrow> strip_ext name \<noteq> ident"
      using False endsWith_file_name [of name] by auto
    from Cons.prems e False have d: "distinct (map fst es)"
      and m: "map_of es (file_name ident) = Some f"
      by auto
    have step: "\<And>r' lg'. \<not> truthy_js (get_prop r' ident) \<Longrightarrow>
                 map_of (fst (read_dir_into es r' lg')) ident = Some d"
      using Cons.IH [OF d m Cons.prems(3)] by blast
    show ?thesis
      using step Cons.prems(4) other
      by (cases "content g") (auto simp: e get_prop_update_other)
  qed
qed

lemma read_dir_log_irrelevant:
  "fst (read_dir_into es r lg) = fst (read_dir_into es r lg')"
proof (induction es arbitrary: r lg lg')
  case Nil
  then show ?case by simp
next
  case (Cons e es)
  obtain name f where e: "e = (name, f)" by (cases e)
  show ?case
    using Cons.IH by (cases "content f") (simp_all add: e)
qed

lemma read_dir_log_mono: "set lg \<subseteq> set (snd (read_dir_into es r lg))"
proof (induction es arbitrary: r lg)
  case Nil
  then show ?case by simp
next
  case (Cons e es)
  obtain name f where e: "e = (name, f)" by (cases e)
  have ext: "\<And>r' x. set lg \<subseteq> set (snd (read_dir_into es r' (lg @ [x])))"
    using Cons.IH by fastforce
  show ?case
    using Cons.IH ext by (cases "content f") (simp_all add: e)
qed

text \<open>A file that cannot be read or parsed adds nothing to the result.\<close>

lemma read_dir_skips_bad:
  assumes "distinct (map fst es)" and "map_of es nm = Some f"
    and "content f = Garbage \<or> content f = Unreadable"
  shows "fst (read_dir_into es r lg) = fst (read_dir_into (AList.delete nm es) r lg')"
  using assms
proof (induction es arbitrary: r lg lg')
  case Nil
  then show ?case by simp
next
  case (Cons e es)
  obtain name g where e: "e = (name, g)" by (cases e)
  show ?case
  proof (cases "name = nm")
    case True
    with Cons.prems e have g: "g = f" and rest: "nm \<notin> fst ` set es"
      by auto
    have del: "AList.delete nm (e # es) = es"
      using rest by (simp add: e True)
    show ?thesis
      unfolding del using Cons.prems(3) read_dir_log_irrelevant [of es r _ lg']
      by (auto simp: e g)
  next
    case False
    from Cons.prems e False have d: "distinct (map fst es)" and m: "map_of es nm = Some f"
      by auto
    have del: "AList.delete nm (e # es) = e # AList.delete nm es"
      using False by (simp add: e)
    show ?thesis
      unfolding del using Cons.IH [OF d m Cons.prems(3)]
      by (cases "content g") (simp_all add: e)
  qed
qed

lemma read_dir_logs_bad:
  assumes "distinct (map fst es)" and "map_of es (file_name ident) = Some f"
    and "content f = Garbage \<or> content f = Unreadable"
    and "\<not> truthy_js (get_prop r ident)"
  shows "ErrReadingFile (file_name ident) \<in> set (snd (read_dir_into es r lg))"
  using assms
proof (induction es arbitrary: r lg)
  case Nil
  then show ?case by simp
next
  case (Cons e es)
  obtain name g where e: "e = (name, g)" by (cases e)
  show ?case
  proof (cases "name = file_name ident")
    case True
    with Cons.prems e have g: "g = f" by auto
    have "ErrReadingFile (file_name ident)
            \<in> set (snd (read_dir_into es r (lg @ [ErrReadingFile (file_name ident)])))"
      using read_dir_log_mono [of "lg @ [ErrReadingFile (file_name ident)]" es r] by simp
    then show ?thesis
      using Cons.prems(3,4)
      by (auto simp: e True g endsWith_of_file_name strip_ext_file_name)
  next
    case False
    have other: "endsWith name ''.json'' \<Longrightarrow> strip_ext name \<noteq> ident"
      using False endsWith_file_name [of name] by auto
    from Cons.prems e False have d: "distinct (map fst es)"
      and m: "map_of es (file_name ident) = Some f"
      by auto
    have step: "\<And>r' lg'. \<not> truthy_js (get_prop r' ident) \<Longrightarrow>
                 ErrReadingFile (file_name ident) \<in> set (snd (read_dir_into es r' lg'))"
      using Cons.IH [OF d m Cons.prems(3)] by blast
    show ?thesis
      using step Cons.prems(4) other
      by (cases "content g") (auto simp: e get_prop_update_other)
  qed
qed

section \<open>Malformed bodies\<close>

text \<open>
  Claim C9. On \<^verbatim>\<open>PUT /json/:id\<close> and \<^verbatim>\<open>PATCH /json/:id\<close> the body is parsed before
  the existence check: an authorised request whose body is not valid JSON is
  answered 400 Bad Request for every identifier and every state of the two
  stores, also when nothing is stored under the identifier, and neither the
  Item Store nor the directory changes.
\<close>

theorem malformed_body_is_bad_request:
  assumes "authorized cfg hdr"
  shows "put_json_id cfg hdr ident Malformed clk s
           = \<lparr>resp = bad_request, after = s, logged = []\<rparr>
       \<and> patch_json_id cfg hdr ident Malformed clk s
           = \<lparr>resp = bad_request, after = s, logged = []\<rparr>
       \<and> bad_request \<noteq> not_found"
  using assms by (simp add: put_json_id_def patch_json_id_def bad_request_def not_found_def)

theorem malformed_body_is_bad_request_witness:
  "authorized example_config example_auth
   \<and> put_json_id example_config example_auth ''no-such-id'' Malformed clock_jan1 empty_server
       = \<lparr>resp = bad_request, after = empty_server, logged = []\<rparr>
   \<and> patch_json_id example_config example_auth ''no-such-id'' Malformed clock_jan1 empty_server
       = \<lparr>resp = bad_request, after = empty_server, logged = []\<rparr>"
  using malformed_body_is_bad_request [OF example_authorized, of "''no-such-id''" clock_jan1 empty_server]
    example_authorized
  by simp

section \<open>Evaluating the examples\<close>

lemmas example_defs =
  example_config_def example_auth_def empty_server_def example_uuid_def example_origin_def
  clock_jan1_def clock_jan2_def clock_jan3_def

lemmas handler_defs =
  post_json_def put_json_id_def patch_json_id_def delete_json_id_def get_json_id_def get_json_def
  writeIndividualDataFile_def deleteIndividualDataFile_def authorized_def get_prop_def
  file_name_def object_prototype_keys_def

lemma created_server_eq:
  "created_server =
     \<lparr>dataStore = [(example_uuid, JObj [(''title'', JStr ''t'')])],
      files = [(file_name example_uuid,
                \<lparr>content = JsonText (JObj [(''title'', JStr ''t''),
                                             (''createdAt'', JStr ''2024-01-01T00:00:00.000Z'')]),
                 mtime = Some 1704067200000\<rparr>)]\<rparr>"
  by (simp add: created_server_def example_defs handler_defs)

lemma zero_server_eq:
  "zero_server =
     \<lparr>dataStore = [(example_uuid, JNum 0)],
      files = [(file_name example_uuid,
                \<lparr>content = JsonText (JObj [(''createdAt'', JStr ''2024-01-01T00:00:00.000Z'')]),
                 mtime = Some 1704067200000\<rparr>)]\<rparr>"
  by (simp add: zero_server_def example_defs handler_defs)

lemma get_json_unfold:
  "get_json s =
     \<lparr>resp = Response 200 (Some (JObj (fst (read_dir_into (files s) (dataStore s) [])))),
      after = s,
      logged = snd (read_dir_into (files s) (dataStore s) [])\<rparr>"
  by (simp add: get_json_def case_prod_beta)

section \<open>Create, then read back\<close>

text \<open>While the item is in memory, \<^verbatim>\<open>GET /json/:id\<close> answers with the body as it was
  posted: the handler returns \<^verbatim>\<open>dataStore[id]\<close>, and only the file carries the stamp.\<close>

lemma get_after_post_returns_body:
  assumes "authorized cfg hdr" and "truthy b"
  shows "resp (get_json_id uuid (after (post_json cfg hdr (Body b) clk uuid origin s)))
           = Response 200 (Some b)"
  using assms
  by (simp add: post_json_def get_json_id_def writeIndividualDataFile_def get_prop_def update_conv')

text \<open>
  Claim C1 (round trip: creating an item with body \<open>B\<close> returns an identifier, and
  \<^verbatim>\<open>GET /json/:id\<close> with it returns \<open>B\<close> plus an added \<^verbatim>\<open>createdAt\<close> field).
  Evaluated on a fresh server with \<open>B\<close> = \<^verbatim>\<open>{"title":"t"}\<close>: the \<^verbatim>\<open>GET\<close> that follows
  the \<^verbatim>\<open>POST\<close> answers 200 with exactly \<^verbatim>\<open>{"title":"t"}\<close>, without \<^verbatim>\<open>createdAt\<close>;
  the file written by the same \<^verbatim>\<open>POST\<close> holds the body with \<^verbatim>\<open>createdAt\<close>, and the
  same \<^verbatim>\<open>GET\<close> returns that content once the Item Store is empty again (after a
  restart), through the fallback branch of the same handler.
\<close>

theorem get_after_post_has_no_createdAt:
  "resp (get_json_id example_uuid created_server)
     = Response 200 (Some (JObj [(''title'', JStr ''t'')]))
   \<and> map_of (files created_server) (file_name example_uuid)
     = Some \<lparr>content = JsonText (JObj [(''title'', JStr ''t''),
                                         (''createdAt'', JStr ''2024-01-01T00:00:00.000Z'')]),
             mtime = Some 1704067200000\<rparr>
   \<and> resp (get_json_id example_uuid (created_server\<lparr>dataStore := []\<rparr>))
     = Response 200 (Some (JObj [(''title'', JStr ''t''),
                                 (''createdAt'', JStr ''2024-01-01T00:00:00.000Z'')]))"
  by (simp add: created_server_eq example_defs handler_defs)

section \<open>The \<^verbatim>\<open>createdAt\<close> stamp\<close>

text \<open>Every write of an item file stamps it with the clock reading of that write.\<close>

lemma write_stamps_current_time:
  "\<exists>kvs m. map_of (files (writeIndividualDataFile clk ident data s)) (file_name ident)
              = Some \<lparr>content = JsonText (JObj kvs), mtime = m\<rparr>
          \<and> map_of kvs ''createdAt'' = Some (JStr (iso clk))"
  by (simp add: writeIndividualDataFile_def update_conv')

text \<open>
  Claim C2 (\<^verbatim>\<open>createdAt\<close> is assigned once at creation and left unchanged by every
  later \<^verbatim>\<open>PUT\<close> and \<^verbatim>\<open>PATCH\<close> on the item). Evaluated on the item created on
  1 January: its file carries the stamp of 1 January; after a \<^verbatim>\<open>PUT\<close> on 2 January
  the file carries the stamp of 2 January, and after a \<^verbatim>\<open>PATCH\<close> on 3 January that
  of 3 January. Both handlers call \<^verbatim>\<open>writeIndividualDataFile\<close>, which writes
  \<^verbatim>\<open>createdAt: new Date().toISOString()\<close> on every call.
\<close>

theorem update_restamps_createdAt:
  "map_of (files created_server) (file_name example_uuid)
     = Some \<lparr>content = JsonText (JObj [(''title'', JStr ''t''),
                                         (''createdAt'', JStr ''2024-01-01T00:00:00.000Z'')]),
             mtime = Some 1704067200000\<rparr>
   \<and> map_of (files (after (put_json_id example_config example_auth example_uuid
                              (Body (JObj [(''title'', JStr ''u'')])) clock_jan2 created_server)))
        (file_name example_uuid)
     = Some \<lparr>content = JsonText (JObj [(''title'', JStr ''u''),
                                         (''createdAt'', JStr ''2024-01-02T00:00:00.000Z'')]),
             mtime = Some 1704153600000\<rparr>
   \<and> map_of (files (after (patch_json_id example_config example_auth example_uuid
                              (Body (JObj [(''content'', JStr ''x'')])) clock_jan3 created_server)))
        (file_name example_uuid)
     = Some \<lparr>content = JsonText (JObj [(''title'', JStr ''t''), (''content'', JStr ''x''),
                                         (''createdAt'', JStr ''2024-01-03T00:00:00.000Z'')]),
             mtime = Some 1704240000000\<rparr>"
  by (simp add: created_server_eq example_defs handler_defs spread_def Let_def)

section \<open>Existence checks\<close>

text \<open>When \<^verbatim>\<open>dataStore[id]\<close> is undefined (no own entry, and not a name inherited from
  \<^verbatim>\<open>Object.prototype\<close>), the three mutating handlers answer 404 and change nothing,
  whatever the directory holds.\<close>

lemma mutation_blind_spot:
  assumes "authorized cfg hdr" and "get_prop (dataStore s) ident = Undefined"
  shows "put_json_id cfg hdr ident (Body b) clk s = \<lparr>resp = not_found, after = s, logged = []\<rparr>"
    and "patch_json_id cfg hdr ident (Body b) clk s = \<lparr>resp = not_found, after = s, logged = []\<rparr>"
    and "delete_json_id cfg hdr ident s = \<lparr>resp = not_found, after = s, logged = []\<rparr>"
  using assms by (simp_all add: put_json_id_def patch_json_id_def delete_json_id_def)

text \<open>
  Claim C3 (for every identifier that has no entry in the Item Store, \<^verbatim>\<open>PUT\<close>,
  \<^verbatim>\<open>PATCH\<close> and \<^verbatim>\<open>DELETE /json/:id\<close> return 404, even when the file exists).
  Evaluated at the identifier \<^verbatim>\<open>constructor\<close>, which has no entry in the empty Item
  Store: the check \<^verbatim>\<open>!dataStore[id]\<close> reads the function that every object inherits
  under that name, so an authorised \<^verbatim>\<open>PUT /json/constructor\<close> answers 200 and creates
  the entry and the file; on a server whose directory holds \<^verbatim>\<open>constructor.json\<close> and
  whose Item Store is empty, \<^verbatim>\<open>PATCH\<close> answers 200 and \<^verbatim>\<open>DELETE\<close> answers 200 and
  removes the file.
\<close>

theorem inherited_name_passes_existence_check:
  "map_of (dataStore empty_server) ''constructor'' = None
   \<and> put_json_id example_config example_auth ''constructor'' (Body (JObj [(''a'', JNum 1)]))
       clock_jan1 empty_server
     = \<lparr>resp = Response 200 (Some (JObj [(''a'', JNum 1)])),
        after = \<lparr>dataStore = [(''constructor'', JObj [(''a'', JNum 1)])],
                 files = [(''constructor.json'',
                           \<lparr>content = JsonText (JObj [(''a'', JNum 1),
                                                        (''createdAt'', JStr ''2024-01-01T00:00:00.000Z'')]),
                            mtime = Some 1704067200000\<rparr>)]\<rparr>,
        logged = []\<rparr>
   \<and> resp (patch_json_id example_config example_auth ''constructor'' (Body (JObj [(''a'', JNum 1)]))
             clock_jan1 disk_only_constructor)
     = Response 200 (Some (JObj [(''a'', JNum 1)]))
   \<and> delete_json_id example_config example_auth ''constructor'' disk_only_constructor
     = \<lparr>resp = Response 200 (Some (JObj [(''message'', JStr ''Json deleted successfully'')])),
        after = \<lparr>dataStore = [], files = []\<rparr>,
        logged = []\<rparr>"
  by (simp add: disk_only_constructor_def example_defs handler_defs spread_def Let_def)

text \<open>
  Claim C8. The existence checks test truthiness, not key presence. For every
  identifier whose own entry in the Item Store is a falsy JSON value (\<^verbatim>\<open>null\<close>,
  \<^verbatim>\<open>false\<close>, \<^verbatim>\<open>0\<close> or the empty string): \<^verbatim>\<open>GET /json/:id\<close> ignores the entry and
  answers from the directory alone (404 without a file, the file's content with
  one, 500 when the file cannot be read or parsed); an authorised \<^verbatim>\<open>PUT\<close> or
  \<^verbatim>\<open>PATCH\<close> with a well-formed body and an authorised \<^verbatim>\<open>DELETE\<close> answer 404 and
  change neither store; and in \<^verbatim>\<open>GET /json\<close> the result holds, for this identifier,
  the content of its readable file instead of the value in memory.
\<close>

theorem falsy_values_count_as_absent:
  assumes own: "map_of (dataStore s) ident = Some v" and falsy: "\<not> truthy v"
    and auth: "authorized cfg hdr" and names: "distinct (map fst (files s))"
  shows "resp (get_json_id ident s)
           = (case map_of (files s) (file_name ident) of
                None \<Rightarrow> not_found
              | Some f \<Rightarrow>
                  (case content f of
                     JsonText d \<Rightarrow> Response 200 (Some d)
                   | Garbage \<Rightarrow> internal_error
                   | Unreadable \<Rightarrow> internal_error))
       \<and> put_json_id cfg hdr ident (Body b) clk s = \<lparr>resp = not_found, after = s, logged = []\<rparr>
       \<and> patch_json_id cfg hdr ident (Body b) clk s = \<lparr>resp = not_found, after = s, logged = []\<rparr>
       \<and> delete_json_id cfg hdr ident s = \<lparr>resp = not_found, after = s, logged = []\<rparr>
       \<and> (\<forall>f d. map_of (files s) (file_name ident) = Some f \<and> content f = JsonText d \<longrightarrow>
             (\<exists>result. resp (get_json s) = Response 200 (Some (JObj result))
                      \<and> map_of result ident = Some d))"
proof -
  have look: "get_prop (dataStore s) ident = Data v"
    using own by (simp add: get_prop_def)
  then have absent: "\<not> truthy_js (get_prop (dataStore s) ident)"
    using falsy by simp
  have one: "resp (get_json_id ident s)
           = (case map_of (files s) (file_name ident) of
                None \<Rightarrow> not_found
              | Some f \<Rightarrow>
                  (case content f of
                     JsonText d \<Rightarrow> Response 200 (Some d)
                   | Garbage \<Rightarrow> internal_error
                   | Unreadable \<Rightarrow> internal_error))"
    using absent by (simp add: get_json_id_def split: option.split file_content.split)
  have put: "put_json_id cfg hdr ident (Body b) clk s = \<lparr>resp = not_found, after = s, logged = []\<rparr>"
    using absent auth by (simp add: put_json_id_def)
  have patch: "patch_json_id cfg hdr ident (Body b) clk s = \<lparr>resp = not_found, after = s, logged = []\<rparr>"
    using absent auth by (simp add: patch_json_id_def)
  have del: "delete_json_id cfg hdr ident s = \<lparr>resp = not_found, after = s, logged = []\<rparr>"
    using absent auth by (simp add: delete_json_id_def)
  have all: "\<forall>f d. map_of (files s) (file_name ident) = Some f \<and> content f = JsonText d \<longrightarrow>
             (\<exists>result. resp (get_json s) = Response 200 (Some (JObj result))
                      \<and> map_of result ident = Some d)"
  proof (intro allI impI)
    fix f d
    assume h: "map_of (files s) (file_name ident) = Some f \<and> content f = JsonText d"
    then have "map_of (fst (read_dir_into (files s) (dataStore s) [])) ident = Some d"
      using read_dir_takes_file [OF names _ _ absent] by blast
    then show "\<exists>result. resp (get_json s) = Response 200 (Some (JObj result))
                      \<and> map_of result ident = Some d"
      by (simp add: get_json_unfold)
  qed
  from one put patch del all show ?thesis by blast
qed

theorem falsy_values_count_as_absent_witness:
  "map_of (dataStore null_server) ''a'' = Some JNull \<and> \<not> truthy JNull
   \<and> authorized example_config example_auth \<and> distinct (map fst (files null_server))
   \<and> resp (get_json_id ''a'' null_server) = Response 200 (Some (JObj [(''x'', JNum 1)]))
   \<and> resp (put_json_id example_config example_auth ''a'' (Body (JNum 5)) clock_jan1 null_server)
       = not_found
   \<and> resp (patch_json_id example_config example_auth ''a'' (Body (JNum 5)) clock_jan1 null_server)
       = not_found
   \<and> resp (delete_json_id example_config example_auth ''a'' null_server) = not_found
   \<and> (\<exists>result. resp (get_json null_server) = Response 200 (Some (JObj result))
              \<and> map_of result ''a'' = Some (JObj [(''x'', JNum 1)]))"
proof -
  have a: "map_of (dataStore null_server) ''a'' = Some JNull"
    by (simp add: null_server_def)
  have b: "\<not> truthy JNull" by simp
  have d: "distinct (map fst (files null_server))"
    by (simp add: null_server_def)
  have f: "map_of (files null_server) (file_name ''a'')
             = Some \<lparr>content = JsonText (JObj [(''x'', JNum 1)]), mtime = Some 0\<rparr>"
    by (simp add: null_server_def file_name_def)
  note t = falsy_values_count_as_absent [OF a b example_authorized d, of "JNum 5" clock_jan1]
  from t have g: "resp (get_json_id ''a'' null_server) = Response 200 (Some (JObj [(''x'', JNum 1)]))"
    by (simp add: f)
  from t f have h: "\<exists>result. resp (get_json null_server) = Response 200 (Some (JObj result))
              \<and> map_of result ''a'' = Some (JObj [(''x'', JNum 1)])"
    by (metis dir_entry.select_convs(1))
  from t g h a b d example_authorized show ?thesis by simp
qed

section \<open>Reading from the directory\<close>

text \<open>A truthy value in memory is never replaced by the loop over the directory.\<close>

lemma read_dir_keeps_truthy:
  "map_of r ident = Some v \<Longrightarrow> truthy v \<Longrightarrow>
     map_of (fst (read_dir_into es r lg)) ident = Some v"
proof (induction es arbitrary: r lg)
  case Nil
  then show ?case by simp
next
  case (Cons e es)
  obtain name f where e: "e = (name, f)" by (cases e)
  have t: "truthy_js (get_prop r ident)"
    using Cons.prems by (simp add: get_prop_def)
  then have ne: "\<not> truthy_js (get_prop r (strip_ext name)) \<Longrightarrow> strip_ext name \<noteq> ident"
    by auto
  show ?case
    using Cons.IH Cons.prems ne
    by (cases "content f") (auto simp: e update_conv')
qed

text \<open>An item that exists only as a readable file, under an identifier for which
  \<^verbatim>\<open>dataStore[id]\<close> is undefined, is served by both read paths, and the Item Store
  is left as it was.\<close>

lemma disk_only_item_is_served:
  assumes "distinct (map fst (files s))" and "map_of (files s) (file_name ident) = Some f"
    and "content f = JsonText d" and "get_prop (dataStore s) ident = Undefined"
  shows "get_json_id ident s = \<lparr>resp = Response 200 (Some d), after = s, logged = []\<rparr>"
    and "map_of (fst (read_dir_into (files s) (dataStore s) [])) ident = Some d"
    and "after (get_json s) = s"
  using assms read_dir_takes_file [of "files s" ident f d "dataStore s" "[]"]
  by (simp_all add: get_json_id_def get_json_unfold)

text \<open>
  Claim C4 (an item that exists only as a file is returned by \<^verbatim>\<open>GET /json/:id\<close> and
  included by \<^verbatim>\<open>GET /json\<close>; the result of \<^verbatim>\<open>GET /json\<close> starts from the Item Store
  snapshot, identifiers not already present are added from disk, memory wins on
  conflict, and nothing is written back). Evaluated on the server that received
  \<^verbatim>\<open>POST /json\<close> with the body \<^verbatim>\<open>0\<close>: the Item Store holds \<^verbatim>\<open>0\<close> under the identifier
  and the directory holds its file; \<^verbatim>\<open>GET /json\<close> answers with the file's content
  under that identifier, not with the value in memory. The test
  \<^verbatim>\<open>if (!result[id])\<close>, commented ``Only add if not already in memory'', is true
  of a present entry whose value is falsy.
\<close>

theorem disk_replaces_falsy_memory_value:
  "dataStore zero_server = [(example_uuid, JNum 0)]
   \<and> resp (get_json zero_server)
     = Response 200
         (Some (JObj [(example_uuid,
                       JObj [(''createdAt'', JStr ''2024-01-01T00:00:00.000Z'')])]))"
  by (simp add: zero_server_eq example_defs handler_defs endsWith_def strip_ext_def)

text \<open>
  Claim C10. A file that cannot be read, or whose content is not valid JSON, is
  handled differently by the two read paths when its item is not served from
  memory. \<^verbatim>\<open>GET /json\<close> logs the error for that file, answers 200, takes nothing
  from the file (the result holds under the identifier what the Item Store
  holds, nothing for an item that exists only on disk) and returns the same
  result as if the file were not in the directory. \<^verbatim>\<open>GET /json/:id\<close> answers 500
  Internal Server Error, not 404.
\<close>

theorem damaged_files_on_the_two_read_paths:
  assumes names: "distinct (map fst (files s))"
    and entry: "map_of (files s) (file_name ident) = Some f"
    and bad: "content f = Garbage \<or> content f = Unreadable"
    and absent: "\<not> truthy_js (get_prop (dataStore s) ident)"
  shows "(\<exists>result. resp (get_json s) = Response 200 (Some (JObj result))
                 \<and> map_of result ident = map_of (dataStore s) ident)
       \<and> ErrReadingFile (file_name ident) \<in> set (logged (get_json s))
       \<and> resp (get_json s) = resp (get_json (s\<lparr>files := AList.delete (file_name ident) (files s)\<rparr>))
       \<and> resp (get_json_id ident s) = internal_error
       \<and> internal_error \<noteq> not_found"
proof -
  let ?rest = "AList.delete (file_name ident) (files s)"
  have same: "fst (read_dir_into (files s) (dataStore s) [])
                = fst (read_dir_into ?rest (dataStore s) [])"
    using read_dir_skips_bad [OF names entry bad] by blast
  have gone: "file_name ident \<notin> fst ` set ?rest"
    by (rule delete_notin_dom)
  have omitted: "map_of (fst (read_dir_into (files s) (dataStore s) [])) ident
                   = map_of (dataStore s) ident"
    unfolding same using read_dir_other [OF gone] by blast
  have a: "\<exists>result. resp (get_json s) = Response 200 (Some (JObj result))
                 \<and> map_of result ident = map_of (dataStore s) ident"
    using omitted by (simp add: get_json_unfold)
  have b: "ErrReadingFile (file_name ident) \<in> set (logged (get_json s))"
    using read_dir_logs_bad [OF names entry bad absent, of "[]"]
    by (simp add: get_json_unfold)
  have c: "resp (get_json s) = resp (get_json (s\<lparr>files := ?rest\<rparr>))"
    using same by (simp add: get_json_unfold)
  have d: "resp (get_json_id ident s) = internal_error"
    using entry bad absent by (auto simp: get_json_id_def)
  have e: "internal_error \<noteq> not_found"
    by (simp add: internal_error_def not_found_def)
  from a b c d e show ?thesis by blast
qed

theorem damaged_files_on_the_two_read_paths_witness:
  "distinct (map fst (files damaged_server))
   \<and> map_of (files damaged_server) (file_name ''a'') = Some \<lparr>content = Garbage, mtime = Some 0\<rparr>
   \<and> \<not> truthy_js (get_prop (dataStore damaged_server) ''a'')
   \<and> resp (get_json damaged_server)
       = Response 200 (Some (JObj [(''m'', JObj [(''k'', JNum 2)]), (''b'', JObj [(''x'', JNum 1)])]))
   \<and> ErrReadingFile ''a.json'' \<in> set (logged (get_json damaged_server))
   \<and> resp (get_json_id ''a'' damaged_server) = internal_error"
proof -
  have n: "distinct (map fst (files damaged_server))"
    by (simp add: damaged_server_def)
  have f: "map_of (files damaged_server) (file_name ''a'') = Some \<lparr>content = Garbage, mtime = Some 0\<rparr>"
    by (simp add: damaged_server_def file_name_def)
  have b: "content \<lparr>content = Garbage, mtime = Some 0\<rparr> = Garbage
             \<or> content \<lparr>content = Garbage, mtime = Some 0\<rparr> = Unreadable"
    by simp
  have a: "\<not> truthy_js (get_prop (dataStore damaged_server) ''a'')"
    by (simp add: damaged_server_def get_prop_def object_prototype_keys_def)
  have r: "resp (get_json (damaged_server\<lparr>files := AList.delete (file_name ''a'') (files damaged_server)\<rparr>))
       = Response 200 (Some (JObj [(''m'', JObj [(''k'', JNum 2)]), (''b'', JObj [(''x'', JNum 1)])]))"
    by (simp add: damaged_server_def get_json_def file_name_def endsWith_def strip_ext_def
          get_prop_def object_prototype_keys_def)
  from damaged_files_on_the_two_read_paths [OF n f b a] r n f a
  show ?thesis by (simp add: file_name_def)
qed

section \<open>The retention sweep\<close>

lemma sweep_entries_aged:
  "over_age rms now (name, f) \<Longrightarrow>
     sweep_entries rms now ((name, f) # es) s lg
       = sweep_entries rms now es
           (if truthy_js (get_prop (dataStore s) (strip_ext name))
            then s\<lparr>files := AList.delete name (files s),
                   dataStore := AList.delete (strip_ext name) (dataStore s)\<rparr>
            else s\<lparr>files := AList.delete name (files s)\<rparr>)
           (lg @ [DeletedOldFile name])"
  by (auto simp: over_age_def Let_def split: option.splits)

lemma sweep_entries_young:
  "\<not> over_age rms now (name, f) \<Longrightarrow>
     sweep_entries rms now ((name, f) # es) s lg = sweep_entries rms now es s lg"
  by (auto simp: over_age_def split: option.splits)

lemma get_prop_delete_other:
  "k \<noteq> k' \<Longrightarrow> get_prop (AList.delete k' obj) k = get_prop obj k"
  by (simp add: get_prop_def delete_conv')

text \<open>The directory after the loop: exactly the over-age entries are gone.\<close>

lemma sweep_entries_files:
  "map_of (files (fst (sweep_entries rms now es s lg))) n
     = (if n \<in> fst ` {e \<in> set es. over_age rms now e} then None else map_of (files s) n)"
proof (induction es arbitrary: s lg)
  case Nil
  then show ?case by simp
next
  case (Cons e es)
  obtain name f where e: "e = (name, f)" by (cases e)
  show ?case
  proof (cases "over_age rms now e")
    case True
    have sets: "fst ` {x \<in> set (e # es). over_age rms now x}
                  = insert name (fst ` {x \<in> set es. over_age rms now x})"
      using True by (force simp: e)
    have step: "sweep_entries rms now (e # es) s lg
                  = sweep_entries rms now es
                      (if truthy_js (get_prop (dataStore s) (strip_ext name))
                       then s\<lparr>files := AList.delete name (files s),
                              dataStore := AList.delete (strip_ext name) (dataStore s)\<rparr>
                       else s\<lparr>files := AList.delete name (files s)\<rparr>)
                      (lg @ [DeletedOldFile name])"
      using True unfolding e by (rule sweep_entries_aged)
    show ?thesis
      unfolding sets step by (simp add: Cons.IH delete_conv')
  next
    case False
    have sets: "fst ` {x \<in> set (e # es). over_age rms now x}
                  = fst ` {x \<in> set es. over_age rms now x}"
      using False by auto
    have step: "sweep_entries rms now (e # es) s lg = sweep_entries rms now es s lg"
      using False unfolding e by (rule sweep_entries_young)
    show ?thesis
      unfolding sets step by (rule Cons.IH)
  qed
qed

text \<open>The Item Store after the loop: the entry of an over-age file is removed when
  \<^verbatim>\<open>dataStore[id]\<close> is truthy, and every other entry stays.\<close>

lemma sweep_entries_store:
  "map_of (dataStore (fst (sweep_entries rms now es s lg))) i
     = (if i \<in> strip_ext ` fst ` {e \<in> set es. over_age rms now e}
           \<and> truthy_js (get_prop (dataStore s) i)
        then None else map_of (dataStore s) i)"
proof (induction es arbitrary: s lg)
  case Nil
  then show ?case by simp
next
  case (Cons e es)
  obtain name f where e: "e = (name, f)" by (cases e)
  show ?case
  proof (cases "over_age rms now e")
    case True
    have sets: "strip_ext ` fst ` {x \<in> set (e # es). over_age rms now x}
                  = insert (strip_ext name) (strip_ext ` fst ` {x \<in> set es. over_age rms now x})"
      using True by (force simp: e)
    have step: "sweep_entries rms now (e # es) s lg
                  = sweep_entries rms now es
                      (if truthy_js (get_prop (dataStore s) (strip_ext name))
                       then s\<lparr>files := AList.delete name (files s),
                              dataStore := AList.delete (strip_ext name) (dataStore s)\<rparr>
                       else s\<lparr>files := AList.delete name (files s)\<rparr>)
                      (lg @ [DeletedOldFile name])"
      using True unfolding e by (rule sweep_entries_aged)
    show ?thesis
    proof (cases "i = strip_ext name")
      case same: True
      show ?thesis
        unfolding sets step by (simp add: Cons.IH delete_conv' same [symmetric])
    next
      case other: False
      show ?thesis
        unfolding sets step using other
        by (auto simp: Cons.IH get_prop_delete_other delete_conv')
    qed
  next
    case False
    have sets: "strip_ext ` fst ` {x \<in> set (e # es). over_age rms now x}
                  = strip_ext ` fst ` {x \<in> set es. over_age rms now x}"
      using False by auto
    have step: "sweep_entries rms now (e # es) s lg = sweep_entries rms now es s lg"
      using False unfolding e by (rule sweep_entries_young)
    show ?thesis
      unfolding sets step by (rule Cons.IH)
  qed
qed

lemma cleanup_files:
  "map_of (files (fst (cleanupOldFiles cfg now s))) n
     = (if n \<in> fst ` {e \<in> set (files s). over_age (retentionMs cfg) now e}
        then None else map_of (files s) n)"
  by (simp add: cleanupOldFiles_def sweep_entries_files)

lemma cleanup_store:
  "map_of (dataStore (fst (cleanupOldFiles cfg now s))) i
     = (if i \<in> strip_ext ` fst ` {e \<in> set (files s). over_age (retentionMs cfg) now e}
           \<and> truthy_js (get_prop (dataStore s) i)
        then None else map_of (dataStore s) i)"
  by (simp add: cleanupOldFiles_def sweep_entries_store)

lemma default_retention:
  "retentionMs \<lparr>AUTH_HEADER = a, retention_days = None\<rparr> = 7 * 86400000"
  by (simp add: retentionMs_def retentionDays_def)

text \<open>
  Claim C5 (a sweep deletes every item file older than the threshold from the
  directory and, if an entry for its identifier is present, also from the Item
  Store; younger files stay in both). Evaluated on the server that received
  \<^verbatim>\<open>POST /json\<close> with the body \<^verbatim>\<open>0\<close> on 1 January, swept eight days later with the
  threshold of seven days: the file is deleted, and the entry stays in the Item
  Store. The test \<^verbatim>\<open>if (dataStore[id])\<close>, commented ``Also remove from in-memory
  store if present'', is false of a present entry whose value is falsy.
\<close>

theorem sweep_keeps_falsy_store_entry:
  "cleanupOldFiles example_config (1704067200000 + 8 * 86400000) zero_server
     = (\<lparr>dataStore = [(example_uuid, JNum 0)], files = []\<rparr>,
        [StartingCleanup 7, DeletedOldFile (file_name example_uuid)])"
  by (simp add: zero_server_eq cleanupOldFiles_def retentionMs_def retentionDays_def
        example_defs handler_defs endsWith_def strip_ext_def Let_def)

section \<open>The timer\<close>

text \<open>The computed delay is the time to the next Jakarta midnight plus the
  distance between the host's zone and UTC+7: right on a host in UTC+7 only.\<close>

lemma scheduleCleanup_offset:
  "scheduleCleanup tzo now = delay_to_jakarta_midnight now + (25200000 + tzo * 60000)"
proof -
  have "(now + 25200000) div 86400000 * 86400000
          = (now + 25200000) - (now + 25200000) mod 86400000"
    by (simp add: minus_mod_eq_div_mult [symmetric])
  then show ?thesis
    by (simp add: scheduleCleanup_def next_local_midnight_def delay_to_jakarta_midnight_def
          Let_def algebra_simps)
qed

lemma delay_to_jakarta_midnight_bounds:
  "0 < delay_to_jakarta_midnight now \<and> delay_to_jakarta_midnight now \<le> 86400000"
  by (simp add: delay_to_jakarta_midnight_def)

lemma scheduleCleanup_on_jakarta_host:
  "scheduleCleanup (- 420) now = delay_to_jakarta_midnight now"
  by (simp add: scheduleCleanup_offset)

text \<open>After each run the callback computes the next delay from the clock.\<close>

lemma timer_sets_itself_again:
  "snd (timer_fired cfg tzo now now' s) = scheduleCleanup tzo now'
   \<and> fst (timer_fired cfg tzo now now' s) = cleanupOldFiles cfg now s"
  by (simp add: timer_fired_def)

text \<open>
  Claim C6 (the sweeper runs at midnight of a fixed zone, not of the host's; the
  first sweep is set for the next such midnight, with a positive delay, so it
  never runs at once at process start; the timer sets itself again after each
  run). Evaluated with the clock at 2024-01-01T00:00:00Z, which is 07:00 in
  Jakarta. On a host in UTC (\<^verbatim>\<open>getTimezoneOffset() = 0\<close>) the delay is 24 hours, so
  the timer fires at 00:00 UTC, which is 07:00 in Jakarta, while the next Jakarta
  midnight is 17 hours away. On a host in UTC+9 (\<^verbatim>\<open>getTimezoneOffset() = -540\<close>)
  started at 2024-01-01T16:00:00Z (23:00 in Jakarta) the delay is minus one
  hour, so the timer set at process start fires at once.
\<close>

theorem scheduleCleanup_misses_jakarta_midnight:
  "scheduleCleanup 0 1704067200000 = 86400000
   \<and> delay_to_jakarta_midnight 1704067200000 = 61200000
   \<and> scheduleCleanup (- 540) 1704124800000 = - 3600000
   \<and> snd (startup (- 540) 1704124800000 []) \<le> 0"
  by (simp add: scheduleCleanup_def next_local_midnight_def delay_to_jakarta_midnight_def
        startup_def Let_def)

section \<open>Partial update\<close>

text \<open>
  Claim C7. \<^verbatim>\<open>PATCH /json/:id\<close> merges the top-level keys of the request body into
  the value in the Item Store. For every item in memory (an own entry with a
  truthy value, as every object is) and every authorised request whose body has
  distinct keys, as every parsed body has: the answer is 200 with the merged
  object, the Item Store holds the merged object, a key of the body has the
  body's value, and any other key has the value it had before. In particular
  \<^verbatim>\<open>{"content":"x"}\<close> on \<^verbatim>\<open>{"title":"t","content":"c"}\<close> gives
  \<^verbatim>\<open>{"title":"t","content":"x"}\<close>.
\<close>

theorem patch_merges_top_level_keys:
  assumes "authorized cfg hdr"
    and "map_of (dataStore s) ident = Some old" and "truthy old"
    and "distinct (map fst (own_props updates))"
  shows "\<exists>merged.
           resp (patch_json_id cfg hdr ident (Body updates) clk s) = Response 200 (Some (JObj merged))
         \<and> map_of (dataStore (after (patch_json_id cfg hdr ident (Body updates) clk s))) ident
             = Some (JObj merged)
         \<and> (\<forall>k. map_of merged k =
                  (case map_of (own_props updates) k of
                     Some v \<Rightarrow> Some v
                   | None \<Rightarrow> map_of (own_props old) k))
         \<and> (old = JObj [(''title'', JStr ''t''), (''content'', JStr ''c'')]
              \<and> updates = JObj [(''content'', JStr ''x'')]
            \<longrightarrow> merged = [(''title'', JStr ''t''), (''content'', JStr ''x'')])"
proof -
  let ?m = "spread (own_props old) (own_props updates)"
  have look: "get_prop (dataStore s) ident = Data old"
    using assms(2) by (simp add: get_prop_def)
  have r: "resp (patch_json_id cfg hdr ident (Body updates) clk s) = Response 200 (Some (JObj ?m))"
    using assms(1,3) look by (simp add: patch_json_id_def Let_def)
  have st: "map_of (dataStore (after (patch_json_id cfg hdr ident (Body updates) clk s))) ident
              = Some (JObj ?m)"
    using assms(1,3) look
    by (simp add: patch_json_id_def Let_def writeIndividualDataFile_def update_conv')
  have keys: "\<forall>k. map_of ?m k =
                  (case map_of (own_props updates) k of
                     Some v \<Rightarrow> Some v
                   | None \<Rightarrow> map_of (own_props old) k)"
    using spread_lookup [OF assms(4)] by simp
  have ex: "old = JObj [(''title'', JStr ''t''), (''content'', JStr ''c'')]
              \<and> updates = JObj [(''content'', JStr ''x'')]
            \<longrightarrow> ?m = [(''title'', JStr ''t''), (''content'', JStr ''x'')]"
    by (simp add: spread_def)
  from r st keys ex show ?thesis by blast
qed

theorem patch_merges_top_level_keys_witness:
  "authorized example_config example_auth
   \<and> map_of (dataStore titled_server) example_uuid
       = Some (JObj [(''title'', JStr ''t''), (''content'', JStr ''c'')])
   \<and> truthy (JObj [(''title'', JStr ''t''), (''content'', JStr ''c'')])
   \<and> distinct (map fst (own_props (JObj [(''content'', JStr ''x'')])))
   \<and> resp (patch_json_id example_config example_auth example_uuid
           (Body (JObj [(''content'', JStr ''x'')])) clock_jan2 titled_server)
       = Response 200 (Some (JObj [(''title'', JStr ''t''), (''content'', JStr ''x'')]))
   \<and> map_of (dataStore (after (patch_json_id example_config example_auth example_uuid
           (Body (JObj [(''content'', JStr ''x'')])) clock_jan2 titled_server))) example_uuid
       = Some (JObj [(''title'', JStr ''t''), (''content'', JStr ''x'')])"
proof -
  have a: "map_of (dataStore titled_server) example_uuid
             = Some (JObj [(''title'', JStr ''t''), (''content'', JStr ''c'')])"
    by (simp add: titled_server_def)
  have b: "truthy (JObj [(''title'', JStr ''t''), (''content'', JStr ''c'')])" by simp
  have c: "distinct (map fst (own_props (JObj [(''content'', JStr ''x'')])))" by simp
  from patch_merges_top_level_keys [OF example_authorized a b c, of clock_jan2]
    a b c example_authorized
  show ?thesis by auto
qed

end
